theory Spec2Isabelle
  imports Main
begin

section \<open>Values and errors\<close>

text \<open>
  The values the program stores in a Book and reads from a JSON file are the values
  Python's \<^verbatim>\<open>json.load\<close> produces: \<^verbatim>\<open>None\<close>, booleans, numbers, strings, lists
  and dictionaries with string keys. The program never inspects a number, so the type of
  numbers is left open (\<open>'n\<close>). A Python \<^verbatim>\<open>str\<close> is represented by its UTF-8
  encoding (a \<open>string\<close>): the encoding is injective and maps the empty string to the
  empty list, and the program only compares strings and tests them for emptiness. A
  dictionary is an association list read with \<open>map_of\<close>.
\<close>

datatype 'n json =
    JNull
  | JBool bool
  | JNum 'n
  | JStr string
  | JArr "'n json list"
  | JObj "(string \<times> 'n json) list"

text \<open>The exceptions the modelled code can raise.\<close>

datatype error =
    JSONDecodeError
  | KeyError
  | ValueError
  | TypeError
  | SystemExit

text \<open>Sequencing: an exception raised by the first step skips the rest.\<close>

definition and_then :: "error + 'a \<Rightarrow> ('a \<Rightarrow> error + 'b) \<Rightarrow> error + 'b" where
  "and_then m f = (case m of Inl e \<Rightarrow> Inl e | Inr x \<Rightarrow> f x)"

text \<open>\<^verbatim>\<open>v[key]\<close> for a string key: only a dictionary can be subscripted by a string.\<close>

fun subscript :: "'n json \<Rightarrow> string \<Rightarrow> error + 'n json" where
  "subscript (JObj kv) k = (case map_of kv k of None \<Rightarrow> Inl KeyError | Some v \<Rightarrow> Inr v)"
| "subscript _ k = Inl TypeError"

text \<open>
  \<^verbatim>\<open>for book in data\<close>: a list yields its elements, a dictionary its keys, a string its
  characters (one-character strings; here one string per byte, which no caller
  distinguishes: every element of a string is a string); anything else is not iterable.
\<close>

fun iter :: "'n json \<Rightarrow> error + 'n json list" where
  "iter (JArr xs) = Inr xs"
| "iter (JObj kv) = Inr (map (\<lambda>(k, v). JStr k) kv)"
| "iter (JStr s) = Inr (map (\<lambda>c. JStr [c]) s)"
| "iter _ = Inl TypeError"

text \<open>Lists and dictionaries are unhashable.\<close>

fun hashable :: "'n json \<Rightarrow> bool" where
  "hashable (JArr xs) = False"
| "hashable (JObj kv) = False"
| "hashable _ = True"

text \<open>
  \<^verbatim>\<open>v in d\<close> for a dictionary \<open>d\<close> with keys \<open>ks\<close>: the key is hashed first, and an
  unhashable one raises TypeError whatever the dictionary holds.
\<close>

definition in_dict :: "'n json \<Rightarrow> 'n json list \<Rightarrow> error + bool" where
  "in_dict v ks = (if hashable v then Inr (v \<in> set ks) else Inl TypeError)"

section \<open>Book\<close>

text \<open>
  The two status labels, Cyrillic strings in the source (the Russian for "checked out"
  and "in stock"), as the bytes of their UTF-8 encoding.
\<close>

definition CHECKED_OUT :: string where
  "CHECKED_OUT =
     [CHR 0xD0, CHR 0x92, CHR 0xD1, CHR 0x8B, CHR 0xD0, CHR 0xB4,
      CHR 0xD0, CHR 0xB0, CHR 0xD0, CHR 0xBD, CHR 0xD0, CHR 0xB0]"

definition IN_STOCK :: string where
  "IN_STOCK =
     [CHR 0xD0, CHR 0x92, CHR 0x20, CHR 0xD0, CHR 0xBD, CHR 0xD0, CHR 0xB0,
      CHR 0xD0, CHR 0xBB, CHR 0xD0, CHR 0xB8, CHR 0xD1, CHR 0x87,
      CHR 0xD0, CHR 0xB8, CHR 0xD0, CHR 0xB8]"

definition BOOK_STATUSES :: "(string \<times> string) list" where
  "BOOK_STATUSES = [(''0'', CHECKED_OUT), (''1'', IN_STOCK)]"

definition dict_values :: "(string \<times> string) list \<Rightarrow> string list" where
  "dict_values d = map snd d"

record 'n Book =
  id' :: "'n json"
  title :: "'n json"
  author :: "'n json"
  year :: "'n json"
  status :: "'n json"

text \<open>
  \<^verbatim>\<open>Book.__init__(self, title, author, year, id=str(uuid4().int), status=IN_STOCK)\<close>.
  An omitted argument is \<open>None\<close>. The default of \<^verbatim>\<open>id\<close> is evaluated once, when the
  \<^verbatim>\<open>def\<close> statement runs: \<open>uuid\<close> is that one value, fixed for the process.
  \<^verbatim>\<open>status in self.BOOK_STATUSES.values()\<close> compares with \<^verbatim>\<open>==\<close>; only a string
  equals a string.
\<close>

definition Book_init ::
  "string \<Rightarrow> 'n json \<Rightarrow> 'n json \<Rightarrow> 'n json \<Rightarrow> 'n json option \<Rightarrow> 'n json option
     \<Rightarrow> error + 'n Book" where
  "Book_init uuid t a y i s =
     (let i = (case i of None \<Rightarrow> JStr uuid | Some v \<Rightarrow> v);
          s = (case s of None \<Rightarrow> JStr IN_STOCK | Some v \<Rightarrow> v)
      in if s \<in> set (map JStr (dict_values BOOK_STATUSES))
         then Inr \<lparr>id' = i, title = t, author = a, year = y, status = s\<rparr>
         else Inl ValueError)"

text \<open>
  Objects live in a heap: a reference is an index into the list of all Books allocated
  so far. \<^verbatim>\<open>Book(...)\<close> allocates a new object and runs \<^verbatim>\<open>__init__\<close> on it.
\<close>

type_synonym ref = nat
type_synonym 'n heap = "'n Book list"

definition new_Book ::
  "string \<Rightarrow> 'n json \<Rightarrow> 'n json \<Rightarrow> 'n json \<Rightarrow> 'n json option \<Rightarrow> 'n json option
     \<Rightarrow> 'n heap \<Rightarrow> (error + ref) \<times> 'n heap" where
  "new_Book uuid t a y i s h =
     (case Book_init uuid t a y i s of
        Inl e \<Rightarrow> (Inl e, h)
      | Inr b \<Rightarrow> (Inr (length h), h @ [b]))"

text \<open>
  \<^verbatim>\<open>self.status = self.BOOK_STATUSES[status]\<close>, on the object \<open>r\<close> refers to (a
  reference the program holds is live: \<open>r < length h\<close>). A code that is not a key raises
  KeyError.
\<close>

definition set_status :: "ref \<Rightarrow> string \<Rightarrow> 'n heap \<Rightarrow> (error + unit) \<times> 'n heap" where
  "set_status r code h =
     (case map_of BOOK_STATUSES code of
        None \<Rightarrow> (Inl KeyError, h)
      | Some label \<Rightarrow> (Inr (), h[r := (h ! r)\<lparr>status := JStr label\<rparr>]))"

section \<open>Library\<close>

record Library =
  books :: "ref list"

definition Library_init :: Library where
  "Library_init = \<lparr>books = []\<rparr>"

definition add_book :: "ref \<Rightarrow> Library \<Rightarrow> Library" where
  "add_book book lib = lib\<lparr>books := books lib @ [book]\<rparr>"

text \<open>
  \<^verbatim>\<open>list.remove(x)\<close> scans the list, removes the first element that is \<open>x\<close> or
  equals it, and raises ValueError when it reaches the end. Book defines no
  \<^verbatim>\<open>__eq__\<close>, so a Book equals only itself: the elements are compared as references.
\<close>

fun list_remove :: "ref \<Rightarrow> ref list \<Rightarrow> error + ref list" where
  "list_remove x [] = Inl ValueError"
| "list_remove x (y # ys) =
     (if y = x then Inr ys
      else (case list_remove x ys of Inl e \<Rightarrow> Inl e | Inr zs \<Rightarrow> Inr (y # zs)))"

definition delete :: "ref \<Rightarrow> Library \<Rightarrow> (error + unit) \<times> Library" where
  "delete book lib =
     (case list_remove book (books lib) of
        Inl e \<Rightarrow> (Inl e, lib)
      | Inr bs \<Rightarrow> (Inr (), lib\<lparr>books := bs\<rparr>))"

definition list' :: "Library \<Rightarrow> ref list" where
  "list' lib = books lib"

section \<open>Loading and saving\<close>

text \<open>
  One round of the loop of \<^verbatim>\<open>load_data\<close>, up to the Book it builds: the duplicate
  check against \<^verbatim>\<open>ids_set\<close>, then the five subscripts in the order the call
  evaluates them, then the constructor.
\<close>

definition load_item :: "string \<Rightarrow> 'n json list \<Rightarrow> 'n json \<Rightarrow> error + 'n Book" where
  "load_item uuid ids_set book =
     and_then (subscript book ''id'') (\<lambda>i.
     and_then (in_dict i ids_set) (\<lambda>dup.
     if dup then Inl ValueError else
     and_then (subscript book ''title'') (\<lambda>t.
     and_then (subscript book ''author'') (\<lambda>a.
     and_then (subscript book ''year'') (\<lambda>y.
     and_then (subscript book ''id'') (\<lambda>i'.
     and_then (subscript book ''status'') (\<lambda>s.
     Book_init uuid t a y (Some i') (Some s))))))))"

text \<open>
  The loop \<^verbatim>\<open>for book in data\<close>. The source creates \<^verbatim>\<open>ids_set = {}\<close> before the loop
  and never stores anything in it, so the same \<open>ids_set\<close> goes to every round. A Book
  that is built is allocated and appended at once; when a round raises, the Books of the
  rounds before it stay in the Library.
\<close>

fun load_loop ::
  "string \<Rightarrow> 'n json list \<Rightarrow> 'n json list \<Rightarrow> 'n heap \<times> Library
     \<Rightarrow> (error + unit) \<times> 'n heap \<times> Library" where
  "load_loop uuid ids_set [] (h, lib) = (Inr (), (h, lib))"
| "load_loop uuid ids_set (book # data) (h, lib) =
     (case load_item uuid ids_set book of
        Inl e \<Rightarrow> (Inl e, (h, lib))
      | Inr b \<Rightarrow> load_loop uuid ids_set data (h @ [b], add_book (length h) lib))"

text \<open>
  What \<^verbatim>\<open>json.load(fp)\<close> makes of the stream: a JSONDecodeError, or the document.
  \<^verbatim>\<open>json.load\<close> and \<^verbatim>\<open>json.dump\<close> belong to Python's library: a file is modelled by
  the document they exchange, not by its text, and a stream that cannot be read is
  outside the model.
\<close>

datatype 'n source = Malformed | Document "'n json"

text \<open>The body of the \<^verbatim>\<open>try\<close> statement.\<close>

definition load_try ::
  "string \<Rightarrow> 'n source \<Rightarrow> 'n heap \<times> Library \<Rightarrow> (error + unit) \<times> 'n heap \<times> Library" where
  "load_try uuid fp s =
     (case fp of
        Malformed \<Rightarrow> (Inl JSONDecodeError, s)
      | Document doc \<Rightarrow>
          (case and_then (subscript doc ''books'') iter of
             Inl e \<Rightarrow> (Inl e, s)
           | Inr data \<Rightarrow> load_loop uuid [] data s))"

text \<open>
  The \<^verbatim>\<open>except\<close> clauses. \<^verbatim>\<open>exit(self.BAD_FILE_MESSAGE, exc)\<close> passes two arguments
  to \<^verbatim>\<open>exit\<close>, which takes one: the call itself raises TypeError. \<^verbatim>\<open>exit(exc)\<close>
  raises SystemExit. No clause catches a TypeError.
\<close>

fun load_except :: "error \<Rightarrow> error" where
  "load_except JSONDecodeError = TypeError"
| "load_except KeyError = TypeError"
| "load_except ValueError = SystemExit"
| "load_except e = e"

definition load_data ::
  "string \<Rightarrow> 'n source \<Rightarrow> 'n heap \<times> Library \<Rightarrow> (error + unit) \<times> 'n heap \<times> Library" where
  "load_data uuid fp s =
     (case load_try uuid fp s of
        (Inl e, s') \<Rightarrow> (Inl (load_except e), s')
      | (Inr u, s') \<Rightarrow> (Inr u, s'))"

text \<open>
  \<^verbatim>\<open>json.dump(self, fp, default=lambda x: x.__dict__)\<close>: the document written is the
  \<^verbatim>\<open>__dict__\<close> of the Library, with the \<^verbatim>\<open>__dict__\<close> of each Book in place of the
  Book; \<^verbatim>\<open>__init__\<close> sets the attributes in the order id, title, author, year, status.
\<close>

definition Book_dict :: "'n Book \<Rightarrow> 'n json" where
  "Book_dict b =
     JObj [(''id'', id' b), (''title'', title b), (''author'', author b),
           (''year'', year b), (''status'', status b)]"

definition save :: "'n heap \<Rightarrow> Library \<Rightarrow> 'n json" where
  "save h lib = JObj [(''books'', JArr (map (\<lambda>r. Book_dict (h ! r)) (books lib)))]"

section \<open>Search\<close>

text \<open>
  The keyword arguments of \<^verbatim>\<open>search\<close> name attributes of a Book and carry strings;
  they are kept in the order of the call.
\<close>

datatype attr = Id | Title | Author | Year | Status

fun getattr :: "'n Book \<Rightarrow> attr \<Rightarrow> 'n json" where
  "getattr b Id = id' b"
| "getattr b Title = title b"
| "getattr b Author = author b"
| "getattr b Year = year b"
| "getattr b Status = status b"

type_synonym kwargs = "(attr \<times> string) list"

text \<open>\<^verbatim>\<open>reduce(operator.and_, xs)\<close> with no initial value raises TypeError on an empty list.\<close>

fun reduce_and :: "bool list \<Rightarrow> error + bool" where
  "reduce_and [] = Inl TypeError"
| "reduce_and (x # xs) = Inr (foldl (\<and>) x xs)"

text \<open>The first loop: the first Book whose id equals the value, if there is one.\<close>

fun find_id :: "'n heap \<Rightarrow> ref list \<Rightarrow> string \<Rightarrow> ref option" where
  "find_id h [] v = None"
| "find_id h (book # rest) v =
     (if id' (h ! book) = JStr v then Some book else find_id h rest v)"

text \<open>The list comprehension: one comparison for each keyword whose value is not empty.\<close>

definition conditions :: "'n Book \<Rightarrow> kwargs \<Rightarrow> bool list" where
  "conditions b kw =
     map (\<lambda>(field, v). getattr b field = JStr v) (filter (\<lambda>(field, v). v \<noteq> []) kw)"

text \<open>The second loop, with the list \<^verbatim>\<open>found\<close> built so far.\<close>

fun find_all :: "'n heap \<Rightarrow> kwargs \<Rightarrow> ref list \<Rightarrow> ref list \<Rightarrow> error + ref list" where
  "find_all h kw [] found = Inr found"
| "find_all h kw (book # rest) found =
     (case reduce_and (conditions (h ! book) kw) of
        Inl e \<Rightarrow> Inl e
      | Inr c \<Rightarrow> find_all h kw rest (if c then found @ [book] else found))"

text \<open>\<^verbatim>\<open>search\<close> returns one Book from the first loop, or a list from the second.\<close>

datatype found = One ref | Many "ref list"

definition search :: "'n heap \<Rightarrow> Library \<Rightarrow> kwargs \<Rightarrow> error + found" where
  "search h lib kw =
     (case (case map_of kw Id of None \<Rightarrow> None | Some v \<Rightarrow> find_id h (books lib) v) of
        Some book \<Rightarrow> Inr (One book)
      | None \<Rightarrow>
          (case find_all h kw (books lib) [] of
             Inl e \<Rightarrow> Inl e
           | Inr found \<Rightarrow> Inr (Many found)))"

section \<open>Example data\<close>

abbreviation example_book :: "string \<Rightarrow> string \<Rightarrow> int Book" where
  "example_book i t \<equiv>
     \<lparr>id' = JStr i, title = JStr t, author = JStr ''X'', year = JStr ''2000'',
      status = JStr IN_STOCK\<rparr>"

section \<open>Removal and search: auxiliary facts\<close>

lemma list_remove_absent: "x \<notin> set ys \<Longrightarrow> list_remove x ys = Inl ValueError"
  by (induction ys) auto

lemma list_remove_first:
  "x \<notin> set xs \<Longrightarrow> list_remove x (xs @ x # ys) = Inr (xs @ ys)"
  by (induction xs) auto

lemma foldl_and: "foldl (\<and>) x xs = (x \<and> list_all (\<lambda>c. c) xs)"
  by (induction xs arbitrary: x) auto

lemma reduce_and_nonempty: "cs \<noteq> [] \<Longrightarrow> reduce_and cs = Inr (list_all (\<lambda>c. c) cs)"
  by (cases cs) (simp_all add: foldl_and)

lemma conditions_empty: "conditions b kw = [] \<longleftrightarrow> (\<forall>(field, v)\<in>set kw. v = [])"
  by (auto simp: conditions_def filter_empty_conv)

lemma conditions_all:
  "list_all (\<lambda>c. c) (conditions b kw) \<longleftrightarrow>
     (\<forall>(field, v)\<in>set kw. v \<noteq> [] \<longrightarrow> getattr b field = JStr v)"
  by (auto simp: conditions_def list_all_iff)

lemma find_id_None: "find_id h bs v = None \<longleftrightarrow> (\<forall>r\<in>set bs. id' (h ! r) \<noteq> JStr v)"
  by (induction bs) auto

lemma find_id_first:
  "\<forall>x\<in>set xs. id' (h ! x) \<noteq> JStr v \<Longrightarrow> id' (h ! r) = JStr v \<Longrightarrow>
     find_id h (xs @ r # ys) v = Some r"
  by (induction xs) auto

lemma find_all_filter:
  assumes "\<exists>(field, v)\<in>set kw. v \<noteq> []"
  shows "find_all h kw bs found =
     Inr (found @ filter (\<lambda>r. \<forall>(field, v)\<in>set kw. v \<noteq> [] \<longrightarrow> getattr (h ! r) field = JStr v) bs)"
proof (induction bs arbitrary: found)
  case Nil
  show ?case by simp
next
  case (Cons r rs)
  have ne: "conditions (h ! r) kw \<noteq> []"
    using assms by (auto simp: conditions_empty)
  show ?case
    by (simp add: reduce_and_nonempty [OF ne] conditions_all Cons.IH)
qed

lemma find_all_no_conditions:
  assumes "\<forall>(field, v)\<in>set kw. v = []"
  shows "find_all h kw bs found = (if bs = [] then Inr found else Inl TypeError)"
proof (cases bs)
  case Nil
  then show ?thesis by simp
next
  case (Cons r rs)
  have "conditions (h ! r) kw = []"
    using assms by (simp add: conditions_empty)
  then show ?thesis using Cons by simp
qed

section \<open>Construction and loading: auxiliary facts\<close>

lemma status_values:
  "s \<in> JStr ` set (dict_values BOOK_STATUSES) \<longleftrightarrow> s = JStr CHECKED_OUT \<or> s = JStr IN_STOCK"
  by (auto simp: dict_values_def BOOK_STATUSES_def)

lemma upt_from: "[n ..< Suc (n + k)] = n # [Suc n ..< Suc (n + k)]"
  by (simp add: upt_conv_Cons del: upt_Suc)

lemma Book_init_Inr:
  "Book_init uuid t a y i s = Inr b \<Longrightarrow>
     (status b = JStr CHECKED_OUT \<or> status b = JStr IN_STOCK) \<and>
     title b = t \<and> author b = a \<and> year b = y \<and>
     id' b = (case i of None \<Rightarrow> JStr uuid | Some v \<Rightarrow> v) \<and>
     status b = (case s of None \<Rightarrow> JStr IN_STOCK | Some v \<Rightarrow> v)"
  by (auto simp: Book_init_def Let_def status_values split: if_splits)

lemma load_item_Inr:
  assumes "load_item uuid ids book = Inr b"
  shows "subscript book ''id'' = Inr (id' b) \<and> subscript book ''title'' = Inr (title b) \<and>
         subscript book ''author'' = Inr (author b) \<and> subscript book ''year'' = Inr (year b) \<and>
         subscript book ''status'' = Inr (status b) \<and>
         (status b = JStr CHECKED_OUT \<or> status b = JStr IN_STOCK)"
  using assms
  by (auto simp: load_item_def and_then_def split: sum.splits if_splits dest!: Book_init_Inr)

lemma load_item_Book_dict:
  assumes "hashable (id' b)" and "status b = JStr CHECKED_OUT \<or> status b = JStr IN_STOCK"
  shows "load_item uuid [] (Book_dict b) = Inr (b :: 'n Book)"
proof -
  have "Book_init uuid (title b) (author b) (year b) (Some (id' b)) (Some (status b)) = Inr b"
    using assms(2) by (simp add: Book_init_def Let_def status_values)
  then show ?thesis
    using assms(1) by (simp add: load_item_def and_then_def Book_dict_def in_dict_def)
qed

lemma load_loop_success:
  "map (load_item uuid ids) items = map Inr bs \<Longrightarrow>
     load_loop uuid ids items (h, lib) =
       (Inr (), (h @ bs, lib\<lparr>books := books lib @ [length h ..< length h + length bs]\<rparr>))"
proof (induction items arbitrary: bs h lib)
  case Nil
  then show ?case by simp
next
  case (Cons item items)
  then obtain b bs' where bs: "bs = b # bs'" "load_item uuid ids item = Inr b"
    "map (load_item uuid ids) items = map Inr bs'"
    by (cases bs) auto
  show ?case
    by (simp add: bs Cons.IH [OF bs(3)] add_book_def upt_from del: upt_Suc)
qed

lemma load_loop_result:
  "load_loop uuid ids items (h, lib) = (res, (h', lib')) \<Longrightarrow>
     \<exists>bs. h' = h @ bs \<and> lib' = lib\<lparr>books := books lib @ [length h ..< length h + length bs]\<rparr> \<and>
          (res = Inr () \<longrightarrow> map (load_item uuid ids) items = map Inr bs) \<and>
          (\<forall>b\<in>set bs. status b = JStr CHECKED_OUT \<or> status b = JStr IN_STOCK)"
proof (induction items arbitrary: h lib)
  case Nil
  then show ?case by auto
next
  case (Cons item items)
  show ?case
  proof (cases "load_item uuid ids item")
    case (Inl e)
    with Cons.prems show ?thesis by auto
  next
    case (Inr b)
    with Cons.prems have "load_loop uuid ids items (h @ [b], add_book (length h) lib) = (res, (h', lib'))"
      by simp
    from Cons.IH [OF this] obtain bs where bs:
      "h' = (h @ [b]) @ bs"
      "lib' = (add_book (length h) lib)\<lparr>books := books (add_book (length h) lib) @
          [length (h @ [b]) ..< length (h @ [b]) + length bs]\<rparr>"
      "res = Inr () \<longrightarrow> map (load_item uuid ids) items = map Inr bs"
      "\<forall>b\<in>set bs. status b = JStr CHECKED_OUT \<or> status b = JStr IN_STOCK"
      by blast
    have st: "status b = JStr CHECKED_OUT \<or> status b = JStr IN_STOCK"
      using load_item_Inr [OF Inr] by simp
    show ?thesis
    proof (intro exI [of _ "b # bs"] conjI)
      show "h' = h @ b # bs" using bs(1) by simp
      show "lib' = lib\<lparr>books := books lib @ [length h ..< length h + length (b # bs)]\<rparr>"
        using bs(2) by (simp add: add_book_def upt_from del: upt_Suc)
      show "res = Inr () \<longrightarrow> map (load_item uuid ids) (item # items) = map Inr (b # bs)"
        using bs(3) Inr by simp
      show "\<forall>b\<in>set (b # bs). status b = JStr CHECKED_OUT \<or> status b = JStr IN_STOCK"
        using bs(4) st by simp
    qed
  qed
qed

lemma load_items_all2:
  "map (load_item uuid ids) items = map Inr bs \<Longrightarrow>
     list_all2 (\<lambda>item b. load_item uuid ids item = Inr b) items bs"
  by (induction items arbitrary: bs) auto

lemma nth_appended: "map ((!) (xs @ ys)) [length xs ..< length xs + length ys] = ys"
  by (rule nth_equalityI) simp_all

lemma load_data_Inr:
  "load_data uuid fp s = (Inr u, s') \<Longrightarrow>
     \<exists>doc data items. fp = Document doc \<and> subscript doc ''books'' = Inr data \<and>
        iter data = Inr items \<and> load_loop uuid [] items s = (Inr (), s')"
  by (auto simp: load_data_def load_try_def and_then_def split: source.splits sum.splits prod.splits)

lemma load_data_Inl:
  "load_data uuid fp s = (Inl e, s') \<Longrightarrow>
     s' = s \<or> (\<exists>items e'. load_loop uuid [] items s = (Inl e', s'))"
  by (auto simp: load_data_def load_try_def and_then_def split: source.splits sum.splits prod.splits)

section \<open>The claims\<close>

text \<open>
  Claim C1, as stated, fails: with every criterion empty the list of conditions is empty
  for each Book, and \<^verbatim>\<open>reduce\<close> raises TypeError on the first Book instead of
  counting it as a match.
\<close>

theorem search_no_criteria_counterexample:
  "search [example_book ''1'' ''A''] \<lparr>books = [0]\<rparr>
      [(Title, ''''), (Author, ''''), (Year, '''')] = Inl TypeError \<and>
   search [example_book ''1'' ''A''] \<lparr>books = [0]\<rparr> [] = Inl TypeError"
  by (simp add: search_def conditions_def)

text \<open>
  Claim C1, amended. Search with no id and with every criterion empty or absent returns
  the full list of Books only for a Library that holds no Book (the result is the empty
  list); on a Library that holds a Book the call raises TypeError and returns nothing.
\<close>

theorem search_no_criteria:
  assumes "map_of kw Id = None" and "\<forall>(field, v)\<in>set kw. v = []"
  shows "search h lib kw = (if books lib = [] then Inr (Many []) else Inl TypeError)"
  using assms by (simp add: search_def find_all_no_conditions)

theorem search_no_criteria_witness:
  "map_of [(Title, ''''), (Author, ''''), (Year, '''')] Id = None \<and>
   search [example_book ''1'' ''A''] \<lparr>books = []\<rparr>
      [(Title, ''''), (Author, ''''), (Year, '''')] = Inr (Many []) \<and>
   search [example_book ''1'' ''A'', example_book ''2'' ''B''] \<lparr>books = [0, 1]\<rparr>
      [(Title, ''''), (Author, ''''), (Year, '''')] = Inl TypeError"
  using search_no_criteria [of "[(Title, ''''), (Author, ''''), (Year, '''')]"
      "[example_book ''1'' ''A'']" "\<lparr>books = []\<rparr>"]
    search_no_criteria [of "[(Title, ''''), (Author, ''''), (Year, '''')]"
      "[example_book ''1'' ''A'', example_book ''2'' ''B'']" "\<lparr>books = [0, 1]\<rparr>"]
  by simp

text \<open>
  Claim C2 (the code does not do what the claim says): a file whose two Books carry the
  same id is loaded to the end, and both Books are in the Library afterwards. The
  duplicate check reads \<^verbatim>\<open>ids_set\<close>, which stays empty.
\<close>

theorem load_data_accepts_repeated_id:
  "load_data uuid
     (Document (JObj [(''books'', JArr
        [JObj [(''id'', JStr ''1''), (''title'', JStr ''A''), (''author'', JStr ''X''),
               (''year'', JStr ''2000''), (''status'', JStr IN_STOCK)],
         JObj [(''id'', JStr ''1''), (''title'', JStr ''B''), (''author'', JStr ''X''),
               (''year'', JStr ''2000''), (''status'', JStr IN_STOCK)]])]))
     ([], Library_init) =
   (Inr (), ([example_book ''1'' ''A'', example_book ''1'' ''B''], \<lparr>books = [0, 1]\<rparr>))"
  by (simp add: load_data_def load_try_def and_then_def load_item_def in_dict_def
      Book_init_def dict_values_def BOOK_STATUSES_def add_book_def Library_init_def)

text \<open>
  Claim C3 (the code does not do what the claim says): two Books constructed with the id
  omitted carry the same id, the one value the default was given when the class was
  defined.
\<close>

theorem default_id_shared:
  "new_Book uuid (JStr ''A'') (JStr ''X'') (JStr ''2000'') None None [] =
     (Inr 0, [\<lparr>id' = JStr uuid, title = JStr ''A'', author = JStr ''X'',
                year = JStr ''2000'', status = JStr IN_STOCK\<rparr>]) \<and>
   new_Book uuid (JStr ''B'') (JStr ''Y'') (JStr ''2001'') None None
     [\<lparr>id' = JStr uuid, title = JStr ''A'', author = JStr ''X'',
       year = JStr ''2000'', status = JStr IN_STOCK\<rparr>] =
     (Inr 1, [\<lparr>id' = JStr uuid, title = JStr ''A'', author = JStr ''X'',
                year = JStr ''2000'', status = JStr IN_STOCK\<rparr>,
              \<lparr>id' = JStr uuid, title = JStr ''B'', author = JStr ''Y'',
                year = JStr ''2001'', status = JStr IN_STOCK\<rparr>])"
  by (simp add: new_Book_def Book_init_def dict_values_def BOOK_STATUSES_def)

text \<open>
  Claim C4. The status of a Book is always one of the two labels: the constructor
  raises ValueError on any other status it is given, gives the in-stock label when the
  status is omitted, and builds only Books with one of the two labels; and when every
  Book allocated so far has one of the two labels, that is still so after a
  construction, after \<^verbatim>\<open>set_status\<close> and after \<^verbatim>\<open>load_data\<close>, whatever their outcome
  (\<^verbatim>\<open>add_book\<close>, \<^verbatim>\<open>delete\<close> and \<^verbatim>\<open>search\<close> do not touch a Book).
\<close>

theorem status_invariant:
  "(s \<notin> {JStr IN_STOCK, JStr CHECKED_OUT} \<longrightarrow> Book_init uuid t a y i (Some s) = Inl ValueError) \<and>
   (\<exists>b. Book_init uuid t a y i None = Inr b \<and> status b = JStr IN_STOCK) \<and>
   (Book_init uuid t a y i s' = Inr b \<longrightarrow> status b \<in> {JStr IN_STOCK, JStr CHECKED_OUT}) \<and>
   ((\<forall>b\<in>set h. status b \<in> {JStr IN_STOCK, JStr CHECKED_OUT}) \<longrightarrow>
      (new_Book uuid t a y i s' h = (res1, h1) \<longrightarrow>
         (\<forall>b\<in>set h1. status b \<in> {JStr IN_STOCK, JStr CHECKED_OUT})) \<and>
      (set_status r code h = (res2, h2) \<longrightarrow>
         (\<forall>b\<in>set h2. status b \<in> {JStr IN_STOCK, JStr CHECKED_OUT})) \<and>
      (load_data uuid fp (h, lib) = (res3, (h3, lib3)) \<longrightarrow>
         (\<forall>b\<in>set h3. status b \<in> {JStr IN_STOCK, JStr CHECKED_OUT})))"
proof (intro conjI impI)
  assume "s \<notin> {JStr IN_STOCK, JStr CHECKED_OUT}"
  then show "Book_init uuid t a y i (Some s) = Inl ValueError"
    by (auto simp: Book_init_def Let_def status_values)
next
  show "\<exists>b. Book_init uuid t a y i None = Inr b \<and> status b = JStr IN_STOCK"
    by (simp add: Book_init_def Let_def status_values)
next
  assume "Book_init uuid t a y i s' = Inr b"
  from Book_init_Inr [OF this] show "status b \<in> {JStr IN_STOCK, JStr CHECKED_OUT}"
    by auto
next
  assume inv: "\<forall>b\<in>set h. status b \<in> {JStr IN_STOCK, JStr CHECKED_OUT}"
    and new: "new_Book uuid t a y i s' h = (res1, h1)"
  show "\<forall>b\<in>set h1. status b \<in> {JStr IN_STOCK, JStr CHECKED_OUT}"
  proof (cases "Book_init uuid t a y i s'")
    case (Inl e)
    with new inv show ?thesis by (simp add: new_Book_def)
  next
    case (Inr b')
    from Book_init_Inr [OF Inr] have "status b' \<in> {JStr IN_STOCK, JStr CHECKED_OUT}"
      by auto
    with new inv Inr show ?thesis by (auto simp: new_Book_def)
  qed
next
  assume inv: "\<forall>b\<in>set h. status b \<in> {JStr IN_STOCK, JStr CHECKED_OUT}"
    and upd: "set_status r code h = (res2, h2)"
  show "\<forall>b\<in>set h2. status b \<in> {JStr IN_STOCK, JStr CHECKED_OUT}"
  proof (cases "map_of BOOK_STATUSES code")
    case None
    with upd inv show ?thesis by (simp add: set_status_def)
  next
    case (Some label)
    then have label: "label = CHECKED_OUT \<or> label = IN_STOCK"
      by (auto simp: BOOK_STATUSES_def split: if_splits)
    from upd Some have h2: "h2 = h[r := (h ! r)\<lparr>status := JStr label\<rparr>]"
      by (simp add: set_status_def)
    show ?thesis
    proof
      fix b assume "b \<in> set h2"
      then have "b \<in> set h \<or> b = (h ! r)\<lparr>status := JStr label\<rparr>"
        unfolding h2 by (auto dest: set_update_subset_insert [THEN subsetD])
      then show "status b \<in> {JStr IN_STOCK, JStr CHECKED_OUT}"
        using inv label by auto
    qed
  qed
next
  assume inv: "\<forall>b\<in>set h. status b \<in> {JStr IN_STOCK, JStr CHECKED_OUT}"
    and load: "load_data uuid fp (h, lib) = (res3, (h3, lib3))"
  have "h3 = h \<or> (\<exists>items r. load_loop uuid [] items (h, lib) = (r, (h3, lib3)))"
  proof (cases res3)
    case (Inl e)
    from load_data_Inl [OF load [unfolded Inl]] show ?thesis by auto
  next
    case (Inr u)
    from load_data_Inr [OF load [unfolded Inr]] show ?thesis by auto
  qed
  then show "\<forall>b\<in>set h3. status b \<in> {JStr IN_STOCK, JStr CHECKED_OUT}"
  proof
    assume "h3 = h"
    with inv show ?thesis by simp
  next
    assume "\<exists>items r. load_loop uuid [] items (h, lib) = (r, (h3, lib3))"
    then obtain items r where "load_loop uuid [] items (h, lib) = (r, (h3, lib3))"
      by blast
    from load_loop_result [OF this] inv show ?thesis by auto
  qed
qed

theorem status_invariant_witness:
  "JStr ''1'' \<notin> {JStr IN_STOCK, JStr CHECKED_OUT :: int json} \<and>
   Book_init ''7'' (JStr ''A'') (JStr ''X'') (JStr ''2000'') None (Some (JStr ''1'' :: int json)) =
     Inl ValueError \<and>
   Book_init ''7'' (JStr ''A'') (JStr ''X'') (JStr ''2000'') None None =
     Inr (example_book ''7'' ''A'') \<and>
   set_status 0 ''0'' [example_book ''7'' ''A''] =
     (Inr (), [(example_book ''7'' ''A'')\<lparr>status := JStr CHECKED_OUT\<rparr>]) \<and>
   status (example_book ''7'' ''A'') \<in> {JStr IN_STOCK, JStr CHECKED_OUT} \<and>
   status ((example_book ''7'' ''A'')\<lparr>status := JStr CHECKED_OUT\<rparr>) \<in>
     {JStr IN_STOCK, JStr CHECKED_OUT}"
proof -
  have neq: "JStr ''1'' \<notin> {JStr IN_STOCK, JStr CHECKED_OUT :: int json}"
    by (simp add: IN_STOCK_def CHECKED_OUT_def)
  have init: "Book_init ''7'' (JStr ''A'') (JStr ''X'') (JStr ''2000'') None None =
      Inr (example_book ''7'' ''A'')"
    by (simp add: Book_init_def dict_values_def BOOK_STATUSES_def)
  have upd: "set_status 0 ''0'' [example_book ''7'' ''A''] =
      (Inr (), [(example_book ''7'' ''A'')\<lparr>status := JStr CHECKED_OUT\<rparr>])"
    by (simp add: set_status_def BOOK_STATUSES_def)
  note inst = status_invariant [where s = "JStr ''1''" and uuid = "''7''" and t = "JStr ''A''"
      and a = "JStr ''X''" and y = "JStr ''2000''" and i = None and s' = None
      and b = "example_book ''7'' ''A''" and h = "[example_book ''7'' ''A'']"
      and r = 0 and code = "''0''" and ?res2.0 = "Inr ()"
      and ?h2.0 = "[(example_book ''7'' ''A'')\<lparr>status := JStr CHECKED_OUT\<rparr>]"]
  from inst neq have "Book_init ''7'' (JStr ''A'') (JStr ''X'') (JStr ''2000'') None
      (Some (JStr ''1'' :: int json)) = Inl ValueError"
    by blast
  moreover from inst init have "status (example_book ''7'' ''A'') \<in> {JStr IN_STOCK, JStr CHECKED_OUT}"
    by blast
  moreover from inst upd have "status ((example_book ''7'' ''A'')\<lparr>status := JStr CHECKED_OUT\<rparr>) \<in>
      {JStr IN_STOCK, JStr CHECKED_OUT}"
    by simp
  ultimately show ?thesis
    using neq init upd by blast
qed

text \<open>
  Claim C5. Take a Library whose Books have pairwise distinct ids (and are Books of the
  data model: the references are live, every id is hashable, as a string is, and every
  status is one of the two labels). Loading the document \<^verbatim>\<open>save\<close> writes for it into a
  new, empty Library succeeds, and the Books of the new Library are equal to the Books
  of the original field for field, in the same order.
\<close>

theorem save_load_roundtrip:
  assumes "distinct (map (\<lambda>r. id' (h ! r)) (books lib))"
    and "\<forall>r\<in>set (books lib). r < length h \<and> hashable (id' (h ! r)) \<and>
           (status (h ! r) = JStr CHECKED_OUT \<or> status (h ! r) = JStr IN_STOCK)"
  shows "\<exists>h' lib'.
     load_data uuid (Document (save h lib)) (h0, Library_init) = (Inr (), (h', lib')) \<and>
     map ((!) h') (books lib') = map ((!) h) (books lib)"
proof -
  let ?bs = "map ((!) h) (books lib)"
  let ?items = "map (\<lambda>r. Book_dict (h ! r)) (books lib)"
  have items: "map (load_item uuid []) ?items = map Inr ?bs"
    using assms(2) by (simp add: load_item_Book_dict)
  have "load_data uuid (Document (save h lib)) (h0, Library_init) =
      (Inr (), (h0 @ ?bs, Library_init\<lparr>books := books Library_init @ [length h0 ..< length h0 + length ?bs]\<rparr>))"
    by (simp add: load_data_def load_try_def save_def and_then_def load_loop_success [OF items])
  moreover have "map ((!) (h0 @ ?bs))
      (books (Library_init\<lparr>books := books Library_init @ [length h0 ..< length h0 + length ?bs]\<rparr>)) = ?bs"
    using nth_appended [of h0 ?bs] by (simp add: Library_init_def)
  ultimately show ?thesis by blast
qed

theorem save_load_roundtrip_witness:
  "distinct (map (\<lambda>r. id' ([example_book ''1'' ''A'', example_book ''2'' ''B''] ! r))
      (books \<lparr>books = [1, 0]\<rparr>)) \<and>
   load_data ''7''
     (Document (save [example_book ''1'' ''A'', example_book ''2'' ''B''] \<lparr>books = [1, 0]\<rparr>))
     ([], Library_init) =
   (Inr (), ([example_book ''2'' ''B'', example_book ''1'' ''A''], \<lparr>books = [0, 1]\<rparr>))"
  using save_load_roundtrip [of "[example_book ''1'' ''A'', example_book ''2'' ''B'']"
      "\<lparr>books = [1, 0]\<rparr>" "''7''" "[]"]
  by (simp add: load_data_def load_try_def save_def and_then_def load_item_def in_dict_def
      Book_dict_def Book_init_def dict_values_def BOOK_STATUSES_def add_book_def
      Library_init_def)

text \<open>
  Claim C6, as stated, fails for the empty id: when no Book has it, the search goes on
  to the other criteria (an empty value is not a condition) and returns the Books that
  match them, not an empty result.
\<close>

theorem search_by_id_counterexample:
  "map_of [(Id, ''''), (Title, ''A'')] Id = Some '''' \<and>
   id' ([example_book ''1'' ''A''] ! 0) \<noteq> JStr '''' \<and>
   search [example_book ''1'' ''A''] \<lparr>books = [0]\<rparr> [(Id, ''''), (Title, ''A'')] =
     Inr (Many [0])"
  by (simp add: search_def conditions_def)

text \<open>
  Claim C6, amended. For a Search whose criteria include an id: when some Book has that
  id, the result is the first Book of the sequence with it, whatever the other criteria;
  when no Book has it and the id is not the empty string, the result is the empty list,
  whatever the other criteria.
\<close>

theorem search_by_id:
  assumes "map_of kw Id = Some v"
  shows "((\<exists>r\<in>set (books lib). id' (h ! r) = JStr v) \<longrightarrow>
           (\<exists>xs r ys. books lib = xs @ r # ys \<and> id' (h ! r) = JStr v \<and>
              (\<forall>x\<in>set xs. id' (h ! x) \<noteq> JStr v) \<and> search h lib kw = Inr (One r))) \<and>
         ((\<forall>r\<in>set (books lib). id' (h ! r) \<noteq> JStr v) \<and> v \<noteq> [] \<longrightarrow>
           search h lib kw = Inr (Many []))"
proof (intro conjI impI)
  assume ex: "\<exists>r\<in>set (books lib). id' (h ! r) = JStr v"
  from split_list_first_prop [OF ex] obtain xs r ys where split:
    "books lib = xs @ r # ys" "id' (h ! r) = JStr v" "\<forall>x\<in>set xs. id' (h ! x) \<noteq> JStr v"
    by blast
  have "find_id h (books lib) v = Some r"
    unfolding split(1) using split(3) split(2) by (rule find_id_first)
  then have "search h lib kw = Inr (One r)"
    using assms by (simp add: search_def)
  with split show "\<exists>xs r ys. books lib = xs @ r # ys \<and> id' (h ! r) = JStr v \<and>
              (\<forall>x\<in>set xs. id' (h ! x) \<noteq> JStr v) \<and> search h lib kw = Inr (One r)"
    by blast
next
  assume absent: "(\<forall>r\<in>set (books lib). id' (h ! r) \<noteq> JStr v) \<and> v \<noteq> []"
  have mem: "(Id, v) \<in> set kw"
    using assms by (rule map_of_SomeD)
  have ne: "\<exists>(field, v)\<in>set kw. v \<noteq> []"
    using mem absent by (intro bexI [of _ "(Id, v)"]) simp_all
  have none: "find_id h (books lib) v = None"
    using absent by (simp add: find_id_None)
  have no_match: "\<not> (\<forall>(field, v)\<in>set kw. v \<noteq> [] \<longrightarrow> getattr (h ! r) field = JStr v)"
    if "r \<in> set (books lib)" for r
  proof
    assume all: "\<forall>(field, v)\<in>set kw. v \<noteq> [] \<longrightarrow> getattr (h ! r) field = JStr v"
    from bspec [OF all mem] absent have "id' (h ! r) = JStr v"
      by simp
    with absent that show False
      by simp
  qed
  have "filter (\<lambda>r. \<forall>(field, v)\<in>set kw. v \<noteq> [] \<longrightarrow> getattr (h ! r) field = JStr v) (books lib) = []"
    unfolding filter_empty_conv using no_match by blast
  then show "search h lib kw = Inr (Many [])"
    using assms none by (simp add: search_def find_all_filter [OF ne])
qed

theorem search_by_id_witness:
  "map_of [(Id, ''2''), (Title, ''Z'')] Id = Some ''2'' \<and>
   search [example_book ''1'' ''A'', example_book ''2'' ''B'', example_book ''2'' ''C'']
     \<lparr>books = [0, 1, 2]\<rparr> [(Id, ''2''), (Title, ''Z'')] = Inr (One 1) \<and>
   map_of [(Id, ''9''), (Title, ''A'')] Id = Some ''9'' \<and>
   search [example_book ''1'' ''A'', example_book ''2'' ''B'', example_book ''2'' ''C'']
     \<lparr>books = [0, 1, 2]\<rparr> [(Id, ''9''), (Title, ''A'')] = Inr (Many [])"
  using search_by_id [of "[(Id, ''2''), (Title, ''Z'')]" "''2''" "\<lparr>books = [0, 1, 2]\<rparr>"
      "[example_book ''1'' ''A'', example_book ''2'' ''B'', example_book ''2'' ''C'']"]
    search_by_id [of "[(Id, ''9''), (Title, ''A'')]" "''9''" "\<lparr>books = [0, 1, 2]\<rparr>"
      "[example_book ''1'' ''A'', example_book ''2'' ''B'', example_book ''2'' ''C'']"]
  by (simp add: search_def conditions_def)

text \<open>
  Claim C7. For a Search without an id in which at least one criterion is not empty, the
  result is the list of the Books for which every non-empty criterion equals the field
  it names, in the order of the Library.
\<close>

theorem search_by_fields:
  assumes "map_of kw Id = None" and "\<exists>(field, v)\<in>set kw. v \<noteq> []"
  shows "search h lib kw =
     Inr (Many (filter
       (\<lambda>r. \<forall>(field, v)\<in>set kw. v \<noteq> [] \<longrightarrow> getattr (h ! r) field = JStr v) (books lib)))"
  using assms(1) by (simp add: search_def find_all_filter [OF assms(2)])

theorem search_by_fields_witness:
  "map_of [(Title, ''A''), (Author, ''''), (Year, '''')] Id = None \<and>
   search [example_book ''1'' ''A'', example_book ''2'' ''B'', example_book ''3'' ''A'']
     \<lparr>books = [0, 1, 2]\<rparr> [(Title, ''A''), (Author, ''''), (Year, '''')] =
   Inr (Many [0, 2])"
  using search_by_fields [of "[(Title, ''A''), (Author, ''''), (Year, '''')]"
      "[example_book ''1'' ''A'', example_book ''2'' ''B'', example_book ''3'' ''A'']"
      "\<lparr>books = [0, 1, 2]\<rparr>"]
  by simp

text \<open>
  Claim C8, as stated, fails: a Book that equals a Book of the Library field for field
  but is another object is not removed; \<^verbatim>\<open>delete\<close> raises ValueError.
\<close>

theorem delete_equal_fields_counterexample:
  "new_Book ''7'' (JStr ''A'') (JStr ''X'') (JStr ''2000'') (Some (JStr ''1'')) None [] =
     (Inr 0, [example_book ''1'' ''A'']) \<and>
   new_Book ''7'' (JStr ''A'') (JStr ''X'') (JStr ''2000'') (Some (JStr ''1'')) None
     [example_book ''1'' ''A''] = (Inr 1, [example_book ''1'' ''A'', example_book ''1'' ''A'']) \<and>
   [example_book ''1'' ''A'', example_book ''1'' ''A''] ! 1 =
     [example_book ''1'' ''A'', example_book ''1'' ''A''] ! 0 \<and>
   delete 1 (add_book 0 Library_init) = (Inl ValueError, add_book 0 Library_init)"
  by (simp add: new_Book_def Book_init_def dict_values_def BOOK_STATUSES_def delete_def
      add_book_def Library_init_def)

text \<open>
  Claim C8, amended. \<^verbatim>\<open>delete\<close> removes the first occurrence of the very Book it is
  given (the same object) and leaves the rest of the sequence as it was; when that Book
  is not in the Library, it raises ValueError and the Library is unchanged.
\<close>

theorem delete_by_identity:
  "(book \<in> set (books lib) \<longrightarrow>
      (\<exists>xs ys. books lib = xs @ book # ys \<and> book \<notin> set xs \<and>
         delete book lib = (Inr (), lib\<lparr>books := xs @ ys\<rparr>))) \<and>
   (book \<notin> set (books lib) \<longrightarrow> delete book lib = (Inl ValueError, lib))"
proof (intro conjI impI)
  assume "book \<in> set (books lib)"
  then obtain xs ys where split: "books lib = xs @ book # ys" "book \<notin> set xs"
    by (auto dest: split_list_first)
  then have "delete book lib = (Inr (), lib\<lparr>books := xs @ ys\<rparr>)"
    by (simp add: delete_def list_remove_first)
  with split show "\<exists>xs ys. books lib = xs @ book # ys \<and> book \<notin> set xs \<and>
         delete book lib = (Inr (), lib\<lparr>books := xs @ ys\<rparr>)"
    by blast
next
  assume "book \<notin> set (books lib)"
  then show "delete book lib = (Inl ValueError, lib)"
    by (simp add: delete_def list_remove_absent)
qed

theorem delete_by_identity_witness:
  "1 \<in> set (books \<lparr>books = [0, 1, 2, 1]\<rparr>) \<and>
   delete 1 \<lparr>books = [0, 1, 2, 1]\<rparr> = (Inr (), \<lparr>books = [0, 2, 1]\<rparr>) \<and>
   5 \<notin> set (books \<lparr>books = [0, 1, 2, 1]\<rparr>) \<and>
   delete 5 \<lparr>books = [0, 1, 2, 1]\<rparr> = (Inl ValueError, \<lparr>books = [0, 1, 2, 1]\<rparr>)"
  using delete_by_identity [of 1 "\<lparr>books = [0, 1, 2, 1]\<rparr>"]
    delete_by_identity [of 5 "\<lparr>books = [0, 1, 2, 1]\<rparr>"]
  by (simp add: delete_def)

text \<open>
  Claim C9. \<^verbatim>\<open>add_book\<close> appends the Book at the end of the sequence, whatever the
  Library holds already (there is no check, and no failure), and \<^verbatim>\<open>list\<close> afterwards
  returns the Books in insertion order with the new Book last.
\<close>

theorem add_book_appends:
  "books (add_book book lib) = books lib @ [book] \<and>
   list' (add_book book lib) = list' lib @ [book]"
  by (simp add: list'_def add_book_def)

text \<open>
  Claim C10. \<^verbatim>\<open>load_data\<close> never clears the Library. Whatever its outcome, the Books
  held before are still there, unchanged and in order, and the Books it built follow
  them. When it succeeds, the new Books are the elements of the file's \<^verbatim>\<open>books\<close>, one
  Book for each element in file order, with the five fields the element gives; and
  loading the same file again succeeds and appends the same Books once more.
\<close>

theorem load_data_appends:
  assumes "load_data uuid fp (h, lib) = (res, (h', lib'))"
  shows "\<exists>bs. h' = h @ bs \<and> books lib' = books lib @ [length h ..< length h + length bs] \<and>
     (res = Inr () \<longrightarrow>
        (\<exists>doc data items. fp = Document doc \<and> subscript doc ''books'' = Inr data \<and>
           iter data = Inr items \<and>
           list_all2 (\<lambda>item b.
              subscript item ''id'' = Inr (id' b) \<and> subscript item ''title'' = Inr (title b) \<and>
              subscript item ''author'' = Inr (author b) \<and> subscript item ''year'' = Inr (year b) \<and>
              subscript item ''status'' = Inr (status b)) items bs) \<and>
        load_data uuid fp (h', lib') =
          (Inr (), (h' @ bs, lib'\<lparr>books := books lib' @ [length h' ..< length h' + length bs]\<rparr>)))"
proof (cases res)
  case (Inl e)
  from load_data_Inl [OF assms [unfolded Inl]]
  consider "(h', lib') = (h, lib)"
    | items e' where "load_loop uuid [] items (h, lib) = (Inl e', (h', lib'))"
    by blast
  then show ?thesis
  proof cases
    case 1
    then show ?thesis using Inl by simp
  next
    case 2
    from load_loop_result [OF 2] show ?thesis using Inl by auto
  qed
next
  case (Inr u)
  from load_data_Inr [OF assms [unfolded Inr]] obtain doc data items where src:
    "fp = Document doc" "subscript doc ''books'' = Inr data" "iter data = Inr items"
    and loop: "load_loop uuid [] items (h, lib) = (Inr (), (h', lib'))"
    by blast
  from load_loop_result [OF loop] obtain bs where bs:
    "h' = h @ bs" "lib' = lib\<lparr>books := books lib @ [length h ..< length h + length bs]\<rparr>"
    "map (load_item uuid []) items = map Inr bs"
    by blast
  have "list_all2 (\<lambda>item b. load_item uuid [] item = Inr b) items bs"
    using bs(3) by (rule load_items_all2)
  then have fields: "list_all2 (\<lambda>item b.
      subscript item ''id'' = Inr (id' b) \<and> subscript item ''title'' = Inr (title b) \<and>
      subscript item ''author'' = Inr (author b) \<and> subscript item ''year'' = Inr (year b) \<and>
      subscript item ''status'' = Inr (status b)) items bs"
    by (rule list_all2_mono) (simp add: load_item_Inr)
  have again: "load_data uuid fp (h', lib') =
      (Inr (), (h' @ bs, lib'\<lparr>books := books lib' @ [length h' ..< length h' + length bs]\<rparr>))"
    by (simp add: load_data_def load_try_def src and_then_def load_loop_success [OF bs(3)])
  show ?thesis
  proof (intro exI [of _ bs] conjI impI)
    show "h' = h @ bs" by (rule bs(1))
    show "books lib' = books lib @ [length h ..< length h + length bs]"
      by (simp add: bs(2))
    show "\<exists>doc data items. fp = Document doc \<and> subscript doc ''books'' = Inr data \<and>
           iter data = Inr items \<and>
           list_all2 (\<lambda>item b.
              subscript item ''id'' = Inr (id' b) \<and> subscript item ''title'' = Inr (title b) \<and>
              subscript item ''author'' = Inr (author b) \<and> subscript item ''year'' = Inr (year b) \<and>
              subscript item ''status'' = Inr (status b)) items bs"
      using src fields by blast
    show "load_data uuid fp (h', lib') =
      (Inr (), (h' @ bs, lib'\<lparr>books := books lib' @ [length h' ..< length h' + length bs]\<rparr>))"
      by (rule again)
  qed
qed

theorem load_data_appends_witness:
  "load_data ''7''
     (Document (JObj [(''books'', JArr
        [JObj [(''id'', JStr ''2''), (''title'', JStr ''B''), (''author'', JStr ''X''),
               (''year'', JStr ''2000''), (''status'', JStr IN_STOCK)]])]))
     ([example_book ''1'' ''A''], \<lparr>books = [0]\<rparr>) =
   (Inr (), ([example_book ''1'' ''A'', example_book ''2'' ''B''], \<lparr>books = [0, 1]\<rparr>)) \<and>
   load_data ''7''
     (Document (JObj [(''books'', JArr
        [JObj [(''id'', JStr ''2''), (''title'', JStr ''B''), (''author'', JStr ''X''),
               (''year'', JStr ''2000''), (''status'', JStr IN_STOCK)]])]))
     ([example_book ''1'' ''A'', example_book ''2'' ''B''], \<lparr>books = [0, 1]\<rparr>) =
   (Inr (), ([example_book ''1'' ''A'', example_book ''2'' ''B'', example_book ''2'' ''B''],
             \<lparr>books = [0, 1, 2]\<rparr>))"
proof -
  have first: "load_data ''7''
     (Document (JObj [(''books'', JArr
        [JObj [(''id'', JStr ''2''), (''title'', JStr ''B''), (''author'', JStr ''X''),
               (''year'', JStr ''2000''), (''status'', JStr IN_STOCK)]])]))
     ([example_book ''1'' ''A''], \<lparr>books = [0]\<rparr>) =
   (Inr (), ([example_book ''1'' ''A'', example_book ''2'' ''B''], \<lparr>books = [0, 1]\<rparr>))"
    by (simp add: load_data_def load_try_def and_then_def load_item_def in_dict_def
        Book_init_def dict_values_def BOOK_STATUSES_def add_book_def)
  from load_data_appends [OF first] obtain bs where
    "[example_book ''1'' ''A'', example_book ''2'' ''B''] = [example_book ''1'' ''A''] @ bs"
    and again: "load_data ''7''
     (Document (JObj [(''books'', JArr
        [JObj [(''id'', JStr ''2''), (''title'', JStr ''B''), (''author'', JStr ''X''),
               (''year'', JStr ''2000''), (''status'', JStr IN_STOCK)]])]))
     ([example_book ''1'' ''A'', example_book ''2'' ''B''], \<lparr>books = [0, 1]\<rparr>) =
      (Inr (), ([example_book ''1'' ''A'', example_book ''2'' ''B''] @ bs,
         \<lparr>books = [0, 1]\<rparr>\<lparr>books := books \<lparr>books = [0, 1]\<rparr> @
            [length [example_book ''1'' ''A'', example_book ''2'' ''B''] ..<
             length [example_book ''1'' ''A'', example_book ''2'' ''B''] + length bs]\<rparr>))"
    by blast
  then have "bs = [example_book ''2'' ''B'']"
    by simp
  with again first show ?thesis
    by simp
qed

end
